theory Spec2Isabelle
  imports Complex_Main "HOL-Library.Sublist"
begin

section \<open>Frame selection: \<open>src/frame_selection.py\<close>\<close>

subsection \<open>Exceptions and floating-point comparison\<close>

text \<open>
  A selector returns \<open>error + string list\<close>, with \<open>Inl\<close> the exception it raises:
  the \<open>ValueError\<close> of its own argument checks (the spec's \<open>InvalidInput\<close>), or
  \<open>Cv2Error\<close>, an exception that escaped a \<open>cv2\<close>/\<open>numpy\<close> call (\<open>cv2.error\<close> and
  the like). Such a call either raises or returns.
\<close>

datatype error = ValueError string | Cv2Error

datatype 'a call = Raises | Returns 'a

definition bind_call :: "'a call \<Rightarrow> ('a \<Rightarrow> 'b call) \<Rightarrow> 'b call" where
  "bind_call m f = (case m of Raises \<Rightarrow> Raises | Returns x \<Rightarrow> f x)"

text \<open>
  Thresholds and distances are Python floats. The source only compares them
  (\<open>diff > threshold\<close>, \<open>threshold < 0\<close>), so a float is a real number, an infinity or
  NaN, with the IEEE order: every comparison with NaN is false.
\<close>

datatype pyfloat = NaN | NegInf | Fin real | PosInf

fun float_lt :: "pyfloat \<Rightarrow> pyfloat \<Rightarrow> bool" where
  "float_lt NaN _ = False"
| "float_lt _ NaN = False"
| "float_lt _ NegInf = False"
| "float_lt PosInf _ = False"
| "float_lt NegInf _ = True"
| "float_lt (Fin a) (Fin b) = (a < b)"
| "float_lt (Fin a) PosInf = True"

definition float_gt :: "pyfloat \<Rightarrow> pyfloat \<Rightarrow> bool" where
  "float_gt a b = float_lt b a"

subsection \<open>\<open>uniform_sampling\<close>\<close>

text \<open>
  \<open>xs[::k]\<close> for a positive step \<open>k\<close>: the first element, then the first of what is
  left after dropping \<open>k - 1\<close> more, and so on.
\<close>

fun every_nth :: "nat \<Rightarrow> 'a list \<Rightarrow> 'a list" where
  "every_nth k [] = []"
| "every_nth k (x # xs) = x # every_nth k (drop (k - 1) xs)"

text \<open>
  Python's extended slice \<open>xs[::step]\<close>: a zero step raises \<open>ValueError\<close>, a negative
  step walks the list from its end.
\<close>

definition slice_step :: "'a list \<Rightarrow> int \<Rightarrow> error + 'a list" where
  "slice_step xs step =
     (if step = 0 then Inl (ValueError ''slice step cannot be zero'')
      else if 0 < step then Inr (every_nth (nat step) xs)
      else Inr (every_nth (nat (- step)) (rev xs)))"

definition uniform_sampling :: "string list \<Rightarrow> int \<Rightarrow> error + string list" where
  "uniform_sampling frames num_samples =
     (if frames = [] then Inl (ValueError ''Empty frames list provided'')
      else if num_samples \<le> 0 then Inl (ValueError ''num_samples must be positive'')
      else if num_samples > int (length frames) then Inr frames
      else
        let step = int (length frames) div num_samples in
        (case slice_step frames step of
           Inl e \<Rightarrow> Inl e
         | Inr ys \<Rightarrow> Inr (take (nat num_samples) ys)))"

subsection \<open>\<open>scene_change_detection\<close>\<close>

text \<open>
  The \<open>cv2\<close>/\<open>numpy\<close> calls of the scan are parameters. \<open>imread\<close> returns \<open>None\<close> for
  a file it cannot decode, and may raise (as it does for an image above the pixel
  limit). \<open>calcHist\<close> takes the raster and the channel; \<open>normalize\<close> stands for
  \<open>cv2.normalize(h, h).flatten()\<close>.
\<close>

record ('img, 'ch, 'hist) scene_cv2 =
  imread :: "string \<Rightarrow> 'img option call"
  calcHist :: "'img \<Rightarrow> nat \<Rightarrow> 'ch call"
  normalize :: "'ch \<Rightarrow> 'ch call"
  concatenate :: "'ch list \<Rightarrow> 'hist call"
  compareHist :: "'hist \<Rightarrow> 'hist \<Rightarrow> pyfloat call"

text \<open>Lines 57 to 66: the three channel histograms, normalised and concatenated.\<close>

definition histogram :: "('img, 'ch, 'hist) scene_cv2 \<Rightarrow> 'img \<Rightarrow> 'hist call" where
  "histogram cv frame =
     bind_call (calcHist cv frame 0) (\<lambda>hist_b.
     bind_call (calcHist cv frame 1) (\<lambda>hist_g.
     bind_call (calcHist cv frame 2) (\<lambda>hist_r.
     bind_call (normalize cv hist_b) (\<lambda>nb.
     bind_call (normalize cv hist_g) (\<lambda>ng.
     bind_call (normalize cv hist_r) (\<lambda>nr.
     concatenate cv [nb, ng, nr]))))))"

text \<open>
  One iteration of the loop over \<open>frames\<close>, on the state
  \<open>(selected_frames, prev_hist)\<close>. The loop has no \<open>try\<close>: a call that raises ends
  the scan.
\<close>

fun scene_step ::
  "('img, 'ch, 'hist) scene_cv2 \<Rightarrow> pyfloat \<Rightarrow> string \<Rightarrow> string list \<times> 'hist option
     \<Rightarrow> (string list \<times> 'hist option) call" where
  "scene_step cv threshold frame_path (selected_frames, prev_hist) =
     (case imread cv frame_path of
        Raises \<Rightarrow> Raises
      | Returns None \<Rightarrow> Returns (selected_frames, prev_hist)
      | Returns (Some frame) \<Rightarrow>
          (case histogram cv frame of
             Raises \<Rightarrow> Raises
           | Returns hist \<Rightarrow>
               (case prev_hist of
                  None \<Rightarrow> Returns (selected_frames, Some hist)
                | Some ph \<Rightarrow>
                    (case compareHist cv ph hist of
                       Raises \<Rightarrow> Raises
                     | Returns diff \<Rightarrow>
                         Returns (if float_gt diff threshold
                                  then selected_frames @ [frame_path]
                                  else selected_frames,
                                  Some hist)))))"

fun scene_loop ::
  "('img, 'ch, 'hist) scene_cv2 \<Rightarrow> pyfloat \<Rightarrow> string list \<Rightarrow> string list \<times> 'hist option
     \<Rightarrow> (string list \<times> 'hist option) call" where
  "scene_loop cv threshold [] st = Returns st"
| "scene_loop cv threshold (frame_path # rest) st =
     (case scene_step cv threshold frame_path st of
        Raises \<Rightarrow> Raises
      | Returns st' \<Rightarrow> scene_loop cv threshold rest st')"

definition scene_change_detection ::
  "('img, 'ch, 'hist) scene_cv2 \<Rightarrow> string list \<Rightarrow> pyfloat \<Rightarrow> error + string list" where
  "scene_change_detection cv frames threshold =
     (if frames = [] then Inl (ValueError ''Empty frames list provided'')
      else
        (case scene_loop cv threshold frames ([frames ! 0], None) of
           Raises \<Rightarrow> Inl Cv2Error
         | Returns (selected_frames, prev_hist) \<Rightarrow> Inr selected_frames))"

text \<open>
  Whether \<open>imread\<close> returns a raster for a path; \<open>find (decodes cv) frames\<close> is then
  the first frame that decodes.
\<close>

definition decodes :: "('img, 'ch, 'hist) scene_cv2 \<Rightarrow> string \<Rightarrow> bool" where
  "decodes cv frame_path =
     (case imread cv frame_path of Returns (Some frame) \<Rightarrow> True | _ \<Rightarrow> False)"

subsection \<open>\<open>motion_based_sampling\<close>\<close>

text \<open>
  \<open>imread_gray\<close> is \<open>cv2.imread(path, cv2.IMREAD_GRAYSCALE)\<close>, \<open>shape\<close> the raster's
  \<open>(height, width)\<close>, \<open>calcOpticalFlowFarneback\<close> the dense flow with the source's fixed
  parameters, and \<open>mean_norm\<close> is \<open>np.linalg.norm(flow, axis=2).mean()\<close>.
\<close>

record ('img, 'flow) motion_cv2 =
  imread_gray :: "string \<Rightarrow> 'img option call"
  shape :: "'img \<Rightarrow> nat \<times> nat"
  calcOpticalFlowFarneback :: "'img \<Rightarrow> 'img \<Rightarrow> 'flow call"
  mean_norm :: "'flow \<Rightarrow> pyfloat call"

text \<open>
  The body of the \<open>try\<close> block, on the state \<open>(selected_frames, prev_frame)\<close>. Both
  \<open>continue\<close> statements leave the iteration before \<open>prev_frame = frame\<close>.
\<close>

fun motion_try ::
  "('img, 'flow) motion_cv2 \<Rightarrow> pyfloat \<Rightarrow> string \<Rightarrow> string list \<times> 'img option
     \<Rightarrow> (string list \<times> 'img option) call" where
  "motion_try cv threshold frame_path (selected_frames, prev_frame) =
     (case imread_gray cv frame_path of
        Raises \<Rightarrow> Raises
      | Returns None \<Rightarrow> Returns (selected_frames, prev_frame)
      | Returns (Some frame) \<Rightarrow>
          (case prev_frame of
             None \<Rightarrow> Returns (selected_frames, Some frame)
           | Some pf \<Rightarrow>
               if shape cv pf \<noteq> shape cv frame then Returns (selected_frames, prev_frame)
               else
                 (case calcOpticalFlowFarneback cv pf frame of
                    Raises \<Rightarrow> Raises
                  | Returns flow \<Rightarrow>
                      (case mean_norm cv flow of
                         Raises \<Rightarrow> Raises
                       | Returns motion_magnitude \<Rightarrow>
                           Returns (if float_gt motion_magnitude threshold
                                    then selected_frames @ [frame_path]
                                    else selected_frames,
                                    Some frame)))))"

text \<open>
  \<open>except Exception: ... continue\<close>: an exception raised in the body leaves the state
  as it was when the iteration began (the append and the assignment come after every
  call that can raise). The message the handler prints is not part of the state.
\<close>

definition motion_step ::
  "('img, 'flow) motion_cv2 \<Rightarrow> pyfloat \<Rightarrow> string \<Rightarrow> string list \<times> 'img option
     \<Rightarrow> string list \<times> 'img option" where
  "motion_step cv threshold frame_path st =
     (case motion_try cv threshold frame_path st of
        Raises \<Rightarrow> st
      | Returns st' \<Rightarrow> st')"

fun motion_loop ::
  "('img, 'flow) motion_cv2 \<Rightarrow> pyfloat \<Rightarrow> string list \<Rightarrow> string list \<times> 'img option
     \<Rightarrow> string list \<times> 'img option" where
  "motion_loop cv threshold [] st = st"
| "motion_loop cv threshold (frame_path # rest) st =
     motion_loop cv threshold rest (motion_step cv threshold frame_path st)"

definition motion_based_sampling ::
  "('img, 'flow) motion_cv2 \<Rightarrow> string list \<Rightarrow> pyfloat \<Rightarrow> error + string list" where
  "motion_based_sampling cv frames threshold =
     (if frames = [] then Inl (ValueError ''Empty frames list provided'')
      else if float_lt threshold (Fin 0) then Inl (ValueError ''threshold must be non-negative'')
      else Inr (fst (motion_loop cv threshold frames ([], None))))"

text \<open>
  The raster of the first frame of a list that decodes (\<open>imread_gray\<close> returns a
  raster for it), to state what the stored raster is compared with.
\<close>

fun first_decoded :: "('img, 'flow) motion_cv2 \<Rightarrow> string list \<Rightarrow> 'img option" where
  "first_decoded cv [] = None"
| "first_decoded cv (frame_path # rest) =
     (case imread_gray cv frame_path of
        Returns (Some frame) \<Rightarrow> Some frame
      | _ \<Rightarrow> first_decoded cv rest)"

subsection \<open>Example collaborators\<close>

text \<open>
  A decoder and primitives to run the selectors on: a colour raster is its brightness,
  its histogram the list of the three channel levels, and the distance of two
  histograms the sum of the absolute differences. \<open>bad.jpg\<close> does not decode and
  \<open>huge.jpg\<close> makes \<open>imread\<close> raise.
\<close>

definition example_scene :: "(int, int, int list) scene_cv2" where
  "example_scene =
     \<lparr> imread = (\<lambda>p.
         if p = ''f0.jpg'' then Returns (Some 10)
         else if p = ''f1.jpg'' then Returns (Some 10)
         else if p = ''f2.jpg'' then Returns (Some 30)
         else if p = ''huge.jpg'' then Raises
         else Returns None),
       calcHist = (\<lambda>frame c. Returns frame),
       normalize = (\<lambda>h. Returns h),
       concatenate = (\<lambda>hs. Returns hs),
       compareHist = (\<lambda>a b. Returns (Fin (of_int (sum_list (map2 (\<lambda>x y. \<bar>x - y\<bar>) a b))))) \<rparr>"

text \<open>
  A grey raster is \<open>(height, width, position)\<close>; the flow between two rasters is the
  distance of their positions.
\<close>

definition example_motion :: "(nat \<times> nat \<times> int, int) motion_cv2" where
  "example_motion =
     \<lparr> imread_gray = (\<lambda>p.
         if p = ''f0.jpg'' then Returns (Some (2, 2, 0))
         else if p = ''f1.jpg'' then Returns (Some (3, 3, 5))
         else if p = ''f2.jpg'' then Returns (Some (3, 3, 9))
         else if p = ''f3.jpg'' then Returns (Some (2, 2, 4))
         else if p = ''huge.jpg'' then Raises
         else Returns None),
       shape = (\<lambda>(h, w, x). (h, w)),
       calcOpticalFlowFarneback = (\<lambda>(h, w, x) (h', w', x'). Returns \<bar>x' - x\<bar>),
       mean_norm = (\<lambda>flow. Returns (Fin (of_int flow))) \<rparr>"

section \<open>Argument validation\<close>

text \<open>
  C6. Each selector raises \<open>ValueError\<close> on an empty frames list; \<open>uniform_sampling\<close>
  also for \<open>num_samples \<le> 0\<close> and \<open>motion_based_sampling\<close> also for a negative
  threshold. The result does not depend on the decoder or on the flow primitive: no
  frame is processed.
\<close>

theorem invalid_input_raised:
  "uniform_sampling [] n = Inl (ValueError ''Empty frames list provided'') \<and>
   scene_change_detection scv [] t = Inl (ValueError ''Empty frames list provided'') \<and>
   motion_based_sampling mcv [] t = Inl (ValueError ''Empty frames list provided'') \<and>
   (n \<le> 0 \<longrightarrow> (\<exists>msg. uniform_sampling frames n = Inl (ValueError msg))) \<and>
   (float_lt t (Fin 0) \<longrightarrow> (\<exists>msg. motion_based_sampling mcv frames t = Inl (ValueError msg)))"
  by (simp add: uniform_sampling_def scene_change_detection_def motion_based_sampling_def)

theorem invalid_input_raised_witness:
  "(0::int) \<le> 0 \<and> float_lt (Fin (- 1)) (Fin 0) \<and>
   uniform_sampling [''f0.jpg''] 0 = Inl (ValueError ''num_samples must be positive'') \<and>
   motion_based_sampling example_motion [''f0.jpg''] (Fin (- 1)) =
     Inl (ValueError ''threshold must be non-negative'')"
  using invalid_input_raised [of 0 example_scene "Fin (- 1)" example_motion "[''f0.jpg'']"]
  by (simp add: uniform_sampling_def motion_based_sampling_def)

section \<open>Uniform stride\<close>

lemma ceil_div_step:
  fixes m k :: nat
  assumes "0 < k"
  shows "(Suc (m + (k - 1)) + k - 1) div k = Suc ((m + k - 1) div k)"
proof -
  have "Suc (m + (k - 1)) + k - 1 = (m + k - 1) + k" using assms by simp
  then have "(Suc (m + (k - 1)) + k - 1) div k = ((m + k - 1) + k) div k" by (rule arg_cong)
  also have "\<dots> = Suc ((m + k - 1) div k)" using assms by (subst div_add_self2) simp_all
  finally show ?thesis .
qed

lemma ceil_div_small:
  fixes n k :: nat
  assumes "0 < k" "n < k - 1"
  shows "(Suc n + k - 1) div k = Suc 0"
proof -
  have "Suc n + k - 1 = k + n" using assms by simp
  moreover have "n < k" using assms by simp
  ultimately show ?thesis by simp
qed

lemma length_every_nth:
  "0 < k \<Longrightarrow> length (every_nth k xs) = (length xs + k - 1) div k"
proof (induction k xs rule: every_nth.induct)
  case (1 k)
  then show ?case by simp
next
  case (2 k x xs)
  show ?case
  proof (cases "length xs < k - 1")
    case True
    then have "drop (k - 1) xs = []" by simp
    then show ?thesis using ceil_div_small [OF 2(2) True] by simp
  next
    case False
    then obtain m where m: "length xs = m + (k - 1)"
      by (metis le_add_diff_inverse2 not_less)
    then have "length (drop (k - 1) xs) = m" by simp
    then show ?thesis using 2 m ceil_div_step [of k m] by simp
  qed
qed

lemma nth_every_nth:
  "0 < k \<Longrightarrow> i < length (every_nth k xs) \<Longrightarrow> every_nth k xs ! i = xs ! (i * k)"
proof (induction k xs arbitrary: i rule: every_nth.induct)
  case (1 k)
  then show ?case by simp
next
  case (2 k x xs)
  show ?case
  proof (cases i)
    case 0
    then show ?thesis by simp
  next
    case (Suc j)
    with 2 have j: "j < length (every_nth k (drop (k - 1) xs))" by simp
    then have "drop (k - 1) xs \<noteq> []" by auto
    then have le: "k - 1 \<le> length xs" by simp
    have "every_nth k (drop (k - 1) xs) ! j = drop (k - 1) xs ! (j * k)"
      using 2 j by simp
    also have "\<dots> = xs ! (k - 1 + j * k)" using le by simp
    also have "k - 1 + j * k = Suc j * k - 1" using 2(2) by simp
    finally show ?thesis using Suc 2(2) by (simp add: nth_Cons')
  qed
qed

lemma subseq_every_nth: "subseq (every_nth k xs) xs"
proof (induction k xs rule: every_nth.induct)
  case (1 k)
  then show ?case by simp
next
  case (2 k x xs)
  have "subseq (drop (k - 1) xs) xs"
    by (rule suffix_imp_subseq) (rule suffix_drop)
  with 2 have "subseq (every_nth k (drop (k - 1) xs)) xs"
    using subseq_order.order_trans by blast
  then show ?case by simp
qed

lemma every_nth_one: "every_nth (Suc 0) xs = xs"
  by (induction xs) simp_all

lemma take_every_nth:
  assumes "0 < n" "n \<le> length xs"
  defines "k \<equiv> length xs div n"
  shows "0 < k"
    and "take n (every_nth k xs) = map (\<lambda>i. xs ! (i * k)) [0..<n]"
    and "\<forall>i<n. i * k < length xs"
proof -
  show k: "0 < k" using assms by (simp add: k_def div_greater_zero_iff)
  have nk: "n * k \<le> length xs" by (simp add: k_def)
  then have "n \<le> length xs div k" using k
    by (metis div_le_mono nonzero_mult_div_cancel_right less_numeral_extra(3))
  also have "\<dots> \<le> (length xs + k - 1) div k" using k by (intro div_le_mono) simp
  finally have len: "n \<le> length (every_nth k xs)" using k by (simp add: length_every_nth)
  show "take n (every_nth k xs) = map (\<lambda>i. xs ! (i * k)) [0..<n]"
  proof (rule nth_equalityI)
    show "length (take n (every_nth k xs)) = length (map (\<lambda>i. xs ! (i * k)) [0..<n])"
      using len by simp
  next
    fix i assume "i < length (take n (every_nth k xs))"
    then have i: "i < n" "i < length (every_nth k xs)" by simp_all
    then show "take n (every_nth k xs) ! i = map (\<lambda>i. xs ! (i * k)) [0..<n] ! i"
      using k by (simp add: nth_every_nth)
  qed
  show "\<forall>i<n. i * k < length xs"
  proof (intro allI impI)
    fix i assume "i < n"
    then have "i * k < n * k" using k by simp
    then show "i * k < length xs" using nk by (rule less_le_trans)
  qed
qed

text \<open>
  C3. For a non-empty frames list and a positive count, \<open>uniform_sampling\<close> returns
  the frames unchanged when the count is at least their number; and for a smaller count
  it returns the frames at positions \<open>0, stride, 2 * stride, ...\<close> with
  \<open>stride = length frames div count\<close>, cut to \<open>count\<close> positions, all of them inside the
  list: the result has length \<open>count\<close> and is a subsequence of the frames.
\<close>

theorem uniform_sampling_spec:
  assumes "frames \<noteq> []" and "0 < count"
  shows "(int (length frames) \<le> count \<longrightarrow> uniform_sampling frames count = Inr frames) \<and>
         (count < int (length frames) \<longrightarrow>
            (\<exists>out. uniform_sampling frames count = Inr out \<and>
               0 < length frames div nat count \<and>
               (\<forall>i<nat count. i * (length frames div nat count) < length frames) \<and>
               out = map (\<lambda>i. frames ! (i * (length frames div nat count))) [0..<nat count] \<and>
               length out = nat count \<and>
               subseq out frames))"
proof (intro conjI impI)
  assume big: "int (length frames) \<le> count"
  show "uniform_sampling frames count = Inr frames"
  proof (cases "count = int (length frames)")
    case True
    then show ?thesis using assms
      by (simp add: uniform_sampling_def slice_step_def every_nth_one)
  next
    case False
    with big assms show ?thesis by (simp add: uniform_sampling_def)
  qed
next
  assume small: "count < int (length frames)"
  define n where "n = nat count"
  define k where "k = length frames div n"
  have n: "0 < n" "n \<le> length frames" "count = int n" using assms small by (simp_all add: n_def)
  have step: "int (length frames) div count = int k"
    by (simp add: n(3) k_def zdiv_int)
  note facts = take_every_nth [OF n(1) n(2), folded k_def]
  have run: "uniform_sampling frames count = Inr (take n (every_nth k frames))"
    using assms small facts(1) unfolding uniform_sampling_def step
    by (simp add: slice_step_def n_def)
  have sub: "subseq (take n (every_nth k frames)) frames"
    by (rule subseq_order.order_trans [OF _ subseq_every_nth])
       (rule prefix_imp_subseq, rule take_is_prefix)
  show "\<exists>out. uniform_sampling frames count = Inr out \<and>
               0 < length frames div nat count \<and>
               (\<forall>i<nat count. i * (length frames div nat count) < length frames) \<and>
               out = map (\<lambda>i. frames ! (i * (length frames div nat count))) [0..<nat count] \<and>
               length out = nat count \<and>
               subseq out frames"
    unfolding n_def [symmetric] k_def [symmetric]
    using run facts sub by simp
qed

theorem uniform_sampling_spec_witness:
  "[''f0'', ''f1'', ''f2'', ''f3''] \<noteq> [] \<and> (0::int) < 2 \<and>
   (2::int) < int (length [''f0'', ''f1'', ''f2'', ''f3'']) \<and>
   uniform_sampling [''f0'', ''f1'', ''f2'', ''f3''] 2 = Inr [''f0'', ''f2''] \<and>
   int (length [''f0'', ''f1'']) \<le> 5 \<and>
   uniform_sampling [''f0'', ''f1''] 5 = Inr [''f0'', ''f1'']"
  using uniform_sampling_spec [of "[''f0'', ''f1'', ''f2'', ''f3'']" 2]
    uniform_sampling_spec [of "[''f0'', ''f1'']" 5]
  by (simp add: uniform_sampling_def slice_step_def)

section \<open>Scene changes\<close>

lemma float_lt_trans: "float_lt a b \<Longrightarrow> float_lt b c \<Longrightarrow> float_lt a c"
  by (cases a; cases b; cases c) simp_all

lemma float_gt_mono: "float_lt t1 t2 \<Longrightarrow> float_gt d t2 \<Longrightarrow> float_gt d t1"
  unfolding float_gt_def by (rule float_lt_trans)

text \<open>The scan only appends to the selection.\<close>

lemma scene_step_appends:
  "scene_step cv t f (sel, prev) = Returns (sel', prev') \<Longrightarrow> sel' = sel \<or> sel' = sel @ [f]"
  by (auto split: call.splits option.splits if_splits)

lemma scene_loop_appends:
  "scene_loop cv t fs (sel, prev) = Returns (sel', prev') \<Longrightarrow>
     \<exists>app. sel' = sel @ app \<and> subseq app fs"
proof (induction fs arbitrary: sel prev)
  case Nil
  then show ?case by simp
next
  case (Cons f fs)
  from Cons.prems obtain sel1 prev1 where
    step: "scene_step cv t f (sel, prev) = Returns (sel1, prev1)" and
    rest: "scene_loop cv t fs (sel1, prev1) = Returns (sel', prev')"
    by (auto split: call.splits)
  from Cons.IH [OF rest] obtain app where app: "sel' = sel1 @ app" "subseq app fs" by blast
  from scene_step_appends [OF step] show ?case
  proof
    assume "sel1 = sel"
    with app show ?thesis by auto
  next
    assume "sel1 = sel @ [f]"
    with app have "sel' = sel @ (f # app)" "subseq (f # app) (f # fs)" by simp_all
    then show ?thesis by blast
  qed
qed

lemma scene_change_detection_seed:
  assumes "scene_change_detection cv frames t = Inr out"
  shows "\<exists>app. out = frames ! 0 # app \<and> subseq app frames"
proof -
  from assms have ne: "frames \<noteq> []"
    by (auto simp: scene_change_detection_def split: if_splits)
  with assms obtain prev where
    "scene_loop cv t frames ([frames ! 0], None) = Returns (out, prev)"
    by (auto simp: scene_change_detection_def split: call.splits)
  from scene_loop_appends [OF this] show ?thesis by simp
qed

text \<open>A scan returns when no call on its frames raises.\<close>

lemma scene_step_returns:
  assumes "imread cv f \<noteq> Raises"
    and "\<forall>frame. imread cv f = Returns (Some frame) \<longrightarrow> histogram cv frame \<noteq> Raises"
    and "\<forall>a b. compareHist cv a b \<noteq> Raises"
  shows "\<exists>st'. scene_step cv t f st = Returns st'"
proof (cases st)
  case (Pair sel prev)
  then show ?thesis using assms
    by (auto split: call.splits option.splits)
qed

lemma scene_loop_returns:
  assumes "\<forall>p\<in>set fs. imread cv p \<noteq> Raises"
    and "\<forall>p\<in>set fs. \<forall>frame. imread cv p = Returns (Some frame) \<longrightarrow> histogram cv frame \<noteq> Raises"
    and "\<forall>a b. compareHist cv a b \<noteq> Raises"
  shows "\<exists>st'. scene_loop cv t fs st = Returns st'"
  using assms(1,2)
proof (induction fs arbitrary: st)
  case Nil
  then show ?case by simp
next
  case (Cons f fs)
  have "\<exists>st1. scene_step cv t f st = Returns st1"
    using Cons.prems assms(3) by (intro scene_step_returns) simp_all
  then obtain st1 where "scene_step cv t f st = Returns st1" by blast
  moreover have "\<exists>st'. scene_loop cv t fs st1 = Returns st'"
    using Cons.prems by (intro Cons.IH) simp_all
  ultimately show ?case by simp
qed

lemma scene_change_detection_returns:
  assumes "frames \<noteq> []"
    and "\<forall>p\<in>set frames. imread cv p \<noteq> Raises"
    and "\<forall>p\<in>set frames. \<forall>frame. imread cv p = Returns (Some frame) \<longrightarrow> histogram cv frame \<noteq> Raises"
    and "\<forall>a b. compareHist cv a b \<noteq> Raises"
  shows "\<exists>out. scene_change_detection cv frames t = Inr out"
proof -
  from scene_loop_returns [OF assms(2-4)] obtain st' where
    "scene_loop cv t frames ([frames ! 0], None) = Returns st'" by blast
  then show ?thesis using assms(1)
    by (cases st') (simp add: scene_change_detection_def)
qed

lemma scene_change_detection_error:
  "scene_change_detection cv frames t = Inl e \<Longrightarrow> frames \<noteq> [] \<Longrightarrow> e = Cv2Error"
  by (auto simp: scene_change_detection_def split: call.splits prod.splits)


lemma example_scene_simps:
  "imread example_scene p =
     (if p = ''f0.jpg'' then Returns (Some 10)
      else if p = ''f1.jpg'' then Returns (Some 10)
      else if p = ''f2.jpg'' then Returns (Some 30)
      else if p = ''huge.jpg'' then Raises
      else Returns None)"
  "histogram example_scene frame = Returns [frame, frame, frame]"
  "compareHist example_scene a b = Returns (Fin (of_int (sum_list (map2 (\<lambda>x y. \<bar>x - y\<bar>) a b))))"
  by (simp_all add: example_scene_def histogram_def bind_call_def)

text \<open>
  C10. For a non-empty frames list and any threshold, a returned selection is non-empty
  and starts with \<open>frames[0]\<close>, whether or not \<open>frames[0]\<close> decodes: the reference is
  put into the selection before the scan. The selection is returned whenever no call on
  the frames raises.
\<close>

theorem first_reference_seeded:
  assumes "frames \<noteq> []"
  shows "(\<forall>out. scene_change_detection cv frames t = Inr out \<longrightarrow>
            out \<noteq> [] \<and> out ! 0 = frames ! 0) \<and>
         ((\<forall>p\<in>set frames. imread cv p \<noteq> Raises) \<and>
          (\<forall>p\<in>set frames. \<forall>frame. imread cv p = Returns (Some frame) \<longrightarrow>
             histogram cv frame \<noteq> Raises) \<and>
          (\<forall>a b. compareHist cv a b \<noteq> Raises) \<longrightarrow>
          (\<exists>out. scene_change_detection cv frames t = Inr out \<and>
             out \<noteq> [] \<and> out ! 0 = frames ! 0))"
proof -
  have seed: "out \<noteq> [] \<and> out ! 0 = frames ! 0"
    if "scene_change_detection cv frames t = Inr out" for out
    using scene_change_detection_seed [OF that] by auto
  show ?thesis
  proof (intro conjI allI impI)
    fix out assume "scene_change_detection cv frames t = Inr out"
    then show "out \<noteq> []" "out ! 0 = frames ! 0" using seed by simp_all
  next
    assume "(\<forall>p\<in>set frames. imread cv p \<noteq> Raises) \<and>
          (\<forall>p\<in>set frames. \<forall>frame. imread cv p = Returns (Some frame) \<longrightarrow>
             histogram cv frame \<noteq> Raises) \<and>
          (\<forall>a b. compareHist cv a b \<noteq> Raises)"
    then obtain out where "scene_change_detection cv frames t = Inr out"
      using scene_change_detection_returns [OF assms, of cv t] by blast
    then show "\<exists>out. scene_change_detection cv frames t = Inr out \<and>
             out \<noteq> [] \<and> out ! 0 = frames ! 0"
      using seed by blast
  qed
qed

theorem first_reference_seeded_witness:
  "[''bad.jpg'', ''f1.jpg'', ''f2.jpg''] \<noteq> [] \<and>
   imread example_scene ''bad.jpg'' = Returns None \<and>
   imread example_scene ''f1.jpg'' = Returns (Some 10) \<and>
   imread example_scene ''f2.jpg'' = Returns (Some 30) \<and>
   histogram example_scene 10 = Returns [10, 10, 10] \<and>
   histogram example_scene 30 = Returns [30, 30, 30] \<and>
   compareHist example_scene [10, 10, 10] [30, 30, 30] = Returns (Fin 60) \<and>
   scene_change_detection example_scene [''bad.jpg'', ''f1.jpg'', ''f2.jpg''] (Fin 30) =
     Inr [''bad.jpg'', ''f2.jpg'']"
  using first_reference_seeded [of "[''bad.jpg'', ''f1.jpg'', ''f2.jpg'']" example_scene "Fin 30"]
  by (simp add: scene_change_detection_def example_scene_simps float_gt_def)

lemma scene_step_mono:
  assumes "float_lt t1 t2" "subseq sel2 sel1"
  shows "rel_call (\<lambda>(s1, p1) (s2, p2). p1 = p2 \<and> subseq s2 s1)
           (scene_step cv t1 f (sel1, prev)) (scene_step cv t2 f (sel2, prev))"
proof -
  have app: "subseq (sel2 @ [f]) (sel1 @ [f])" "subseq sel2 (sel1 @ [f])"
    using assms(2) by (simp_all add: subseq_rev_drop_many)
  show ?thesis
    using assms(2) app float_gt_mono [OF assms(1)]
    by (auto split: call.splits option.splits)
qed

lemma scene_loop_mono:
  assumes "float_lt t1 t2"
  shows "subseq sel2 sel1 \<Longrightarrow>
         rel_call (\<lambda>(s1, p1) (s2, p2). p1 = p2 \<and> subseq s2 s1)
           (scene_loop cv t1 fs (sel1, prev)) (scene_loop cv t2 fs (sel2, prev))"
proof (induction fs arbitrary: sel1 sel2 prev)
  case Nil
  then show ?case by simp
next
  case (Cons f fs)
  from scene_step_mono [OF assms Cons.prems, of cv f prev] show ?case
    by (cases "scene_step cv t1 f (sel1, prev)"; cases "scene_step cv t2 f (sel2, prev)")
       (auto intro: Cons.IH)
qed

text \<open>
  C4. With the decoder and the histogram calls fixed, raising the threshold from
  \<open>threshold1\<close> to \<open>threshold2\<close> leaves an exception as it is, and a selection becomes a
  subsequence of the selection for \<open>threshold1\<close>: no frame is added, and the selection
  does not grow.
\<close>

theorem scene_threshold_monotone:
  assumes "float_lt threshold1 threshold2"
  shows "case scene_change_detection cv frames threshold1 of
           Inl e \<Rightarrow> scene_change_detection cv frames threshold2 = Inl e
         | Inr out1 \<Rightarrow>
             (\<exists>out2. scene_change_detection cv frames threshold2 = Inr out2 \<and>
                subseq out2 out1 \<and> set out2 \<subseteq> set out1 \<and> length out2 \<le> length out1)"
proof (cases "frames = []")
  case True
  then show ?thesis by (simp add: scene_change_detection_def)
next
  case False
  have "rel_call (\<lambda>(s1, p1) (s2, p2). p1 = p2 \<and> subseq s2 s1)
          (scene_loop cv threshold1 frames ([frames ! 0], None))
          (scene_loop cv threshold2 frames ([frames ! 0], None))"
    by (rule scene_loop_mono [OF assms]) simp
  then show ?thesis using False
    by (cases "scene_loop cv threshold1 frames ([frames ! 0], None)";
        cases "scene_loop cv threshold2 frames ([frames ! 0], None)")
       (auto simp: scene_change_detection_def dest: list_emb_set list_emb_length)
qed

theorem scene_threshold_monotone_witness:
  "float_lt (Fin 30) (Fin 100) \<and>
   scene_change_detection example_scene [''f0.jpg'', ''f1.jpg'', ''f2.jpg''] (Fin 30) =
     Inr [''f0.jpg'', ''f2.jpg''] \<and>
   scene_change_detection example_scene [''f0.jpg'', ''f1.jpg'', ''f2.jpg''] (Fin 100) =
     Inr [''f0.jpg''] \<and>
   subseq [''f0.jpg''] [''f0.jpg'', ''f2.jpg'']"
  using scene_threshold_monotone [of "Fin 30" "Fin 100" example_scene
      "[''f0.jpg'', ''f1.jpg'', ''f2.jpg'']"]
  by (simp add: scene_change_detection_def example_scene_simps float_gt_def)


lemma scene_step_undecoded:
  "imread cv f = Returns None \<Longrightarrow> scene_step cv t f st = Returns st"
  by (cases st) simp

lemma scene_loop_filter:
  "scene_loop cv t fs st = scene_loop cv t (filter (\<lambda>p. imread cv p \<noteq> Returns None) fs) st"
proof (induction fs arbitrary: st)
  case Nil
  then show ?case by simp
next
  case (Cons f fs)
  show ?case
  proof (cases "imread cv f = Returns None")
    case True
    then show ?thesis using Cons.IH by (simp add: scene_step_undecoded)
  next
    case False
    then show ?thesis using Cons.IH by (simp split: call.splits)
  qed
qed

text \<open>
  C1, as the code has it. For a non-empty frames list a returned selection starts with
  \<open>frames[0]\<close>, decoded or not; so the first frame that decodes is in the selection
  when it is \<open>frames[0]\<close>. In the scan a frame that \<open>imread\<close> cannot decode leaves the
  selection and the previous histogram as they were: the scan of the frames is the scan
  of those that do not fail to decode.
\<close>

theorem scene_decode_failure_skipped:
  assumes "frames \<noteq> []"
  shows "(\<forall>out. scene_change_detection cv frames t = Inr out \<longrightarrow>
            out \<noteq> [] \<and> out ! 0 = frames ! 0 \<and>
            (decodes cv (frames ! 0) \<longrightarrow>
               find (decodes cv) frames = Some (frames ! 0) \<and> frames ! 0 \<in> set out)) \<and>
         (\<forall>f st. imread cv f = Returns None \<longrightarrow> scene_step cv t f st = Returns st) \<and>
         (\<forall>st. scene_loop cv t frames st =
            scene_loop cv t (filter (\<lambda>p. imread cv p \<noteq> Returns None) frames) st)"
proof (intro conjI allI impI)
  fix out assume out: "scene_change_detection cv frames t = Inr out"
  from scene_change_detection_seed [OF out] obtain app where app: "out = frames ! 0 # app"
    by blast
  then show "out \<noteq> []" "out ! 0 = frames ! 0" by simp_all
  assume "decodes cv (frames ! 0)"
  then show "find (decodes cv) frames = Some (frames ! 0)"
    using assms by (cases frames) simp_all
  show "frames ! 0 \<in> set out" using app by simp
next
  fix f st assume "imread cv f = Returns None"
  then show "scene_step cv t f st = Returns st" by (rule scene_step_undecoded)
next
  fix st
  show "scene_loop cv t frames st =
          scene_loop cv t (filter (\<lambda>p. imread cv p \<noteq> Returns None) frames) st"
    by (rule scene_loop_filter)
qed

theorem scene_decode_failure_skipped_witness:
  "[''f0.jpg'', ''bad.jpg'', ''f2.jpg''] \<noteq> [] \<and>
   decodes example_scene ''f0.jpg'' \<and>
   imread example_scene ''bad.jpg'' = Returns None \<and>
   scene_change_detection example_scene [''f0.jpg'', ''bad.jpg'', ''f2.jpg''] (Fin 30) =
     Inr [''f0.jpg'', ''f2.jpg''] \<and>
   scene_step example_scene (Fin 30) ''bad.jpg'' ([''f0.jpg''], Some [10, 10, 10]) =
     Returns ([''f0.jpg''], Some [10, 10, 10]) \<and>
   filter (\<lambda>p. imread example_scene p \<noteq> Returns None) [''f0.jpg'', ''bad.jpg'', ''f2.jpg''] =
     [''f0.jpg'', ''f2.jpg'']"
  using scene_decode_failure_skipped [of "[''f0.jpg'', ''bad.jpg'', ''f2.jpg'']"
      example_scene "Fin 30"]
  by (simp add: scene_change_detection_def example_scene_simps float_gt_def decodes_def)

text \<open>
  The claim as the spec states it fails when \<open>frames[0]\<close> does not decode: the frame
  that failed is in the selection, and the first frame that decodes is not.
\<close>

theorem first_decoded_frame_counterexample:
  "imread example_scene ''bad.jpg'' = Returns None \<and>
   find (decodes example_scene) [''bad.jpg'', ''f1.jpg''] = Some ''f1.jpg'' \<and>
   scene_change_detection example_scene [''bad.jpg'', ''f1.jpg''] (Fin 30) = Inr [''bad.jpg''] \<and>
   ''f1.jpg'' \<notin> set [''bad.jpg''] \<and> ''bad.jpg'' \<in> set [''bad.jpg'']"
  by (simp add: scene_change_detection_def example_scene_simps float_gt_def decodes_def)

text \<open>
  C8, as the code has it. \<open>scene_change_detection\<close> checks its frames list only: on a
  non-empty list it raises no \<open>ValueError\<close> for any threshold, a negative one included,
  and returns a selection whenever no call on the frames raises.
\<close>

theorem scene_threshold_unchecked:
  assumes "frames \<noteq> []"
  shows "(\<forall>msg. scene_change_detection cv frames t \<noteq> Inl (ValueError msg)) \<and>
         ((\<forall>p\<in>set frames. imread cv p \<noteq> Raises) \<and>
          (\<forall>p\<in>set frames. \<forall>frame. imread cv p = Returns (Some frame) \<longrightarrow>
             histogram cv frame \<noteq> Raises) \<and>
          (\<forall>a b. compareHist cv a b \<noteq> Raises) \<longrightarrow>
          (\<exists>out. scene_change_detection cv frames t = Inr out))"
proof (intro conjI allI impI)
  fix msg
  show "scene_change_detection cv frames t \<noteq> Inl (ValueError msg)"
    using scene_change_detection_error [OF _ assms, of cv t "ValueError msg"] by auto
next
  assume "(\<forall>p\<in>set frames. imread cv p \<noteq> Raises) \<and>
          (\<forall>p\<in>set frames. \<forall>frame. imread cv p = Returns (Some frame) \<longrightarrow>
             histogram cv frame \<noteq> Raises) \<and>
          (\<forall>a b. compareHist cv a b \<noteq> Raises)"
  then show "\<exists>out. scene_change_detection cv frames t = Inr out"
    using scene_change_detection_returns [OF assms, of cv t] by blast
qed

theorem scene_threshold_unchecked_witness:
  "[''f0.jpg'', ''f1.jpg''] \<noteq> [] \<and> float_lt (Fin (- 1)) (Fin 0) \<and>
   imread example_scene ''f0.jpg'' = Returns (Some 10) \<and>
   imread example_scene ''f1.jpg'' = Returns (Some 10) \<and>
   histogram example_scene 10 = Returns [10, 10, 10] \<and>
   scene_change_detection example_scene [''f0.jpg'', ''f1.jpg''] (Fin (- 1)) =
     Inr [''f0.jpg'', ''f1.jpg'']"
  using scene_threshold_unchecked [of "[''f0.jpg'', ''f1.jpg'']" example_scene "Fin (- 1)"]
  by (simp add: scene_change_detection_def example_scene_simps float_gt_def)

text \<open>
  The claim as the spec states it fails: with the threshold \<open>-1\<close> the selector returns
  a selection, where \<open>motion_based_sampling\<close> raises.
\<close>

theorem scene_negative_threshold_counterexample:
  "float_lt (Fin (- 1)) (Fin 0) \<and>
   scene_change_detection example_scene [''f0.jpg''] (Fin (- 1)) = Inr [''f0.jpg''] \<and>
   motion_based_sampling example_motion [''f0.jpg''] (Fin (- 1)) =
     Inl (ValueError ''threshold must be non-negative'')"
  by (simp add: scene_change_detection_def example_scene_simps motion_based_sampling_def)

section \<open>Motion\<close>

lemma example_motion_simps:
  "imread_gray example_motion p =
     (if p = ''f0.jpg'' then Returns (Some (2, 2, 0))
      else if p = ''f1.jpg'' then Returns (Some (3, 3, 5))
      else if p = ''f2.jpg'' then Returns (Some (3, 3, 9))
      else if p = ''f3.jpg'' then Returns (Some (2, 2, 4))
      else if p = ''huge.jpg'' then Raises
      else Returns None)"
  "shape example_motion (h, w, x) = (h, w)"
  "calcOpticalFlowFarneback example_motion (h, w, x) (h', w', x') = Returns \<bar>x' - x\<bar>"
  "mean_norm example_motion flow = Returns (Fin (of_int flow))"
  by (simp_all add: example_motion_def)

text \<open>What one iteration can do to the state.\<close>

lemma motion_step_cases:
  assumes "motion_step cv t f (sel, prev) = (sel', prev')"
  shows "(sel' = sel \<and> prev' = prev) \<or>
         (\<exists>frame. imread_gray cv f = Returns (Some frame) \<and> prev' = Some frame \<and>
            (case prev of
               None \<Rightarrow> sel' = sel
             | Some pf \<Rightarrow> shape cv pf = shape cv frame \<and> (sel' = sel \<or> sel' = sel @ [f])))"
  using assms
  by (auto simp: motion_step_def split: call.splits option.splits if_splits)

lemma motion_loop_appends:
  "motion_loop cv t fs (sel, prev) = (sel', prev') \<Longrightarrow>
     \<exists>app. sel' = sel @ app \<and> subseq app fs"
proof (induction fs arbitrary: sel prev)
  case Nil
  then show ?case by simp
next
  case (Cons f fs)
  obtain sel1 prev1 where step: "motion_step cv t f (sel, prev) = (sel1, prev1)"
    by (cases "motion_step cv t f (sel, prev)")
  with Cons.prems have "motion_loop cv t fs (sel1, prev1) = (sel', prev')" by simp
  from Cons.IH [OF this] obtain app where app: "sel' = sel1 @ app" "subseq app fs" by blast
  from motion_step_cases [OF step] have "sel1 = sel \<or> sel1 = sel @ [f]"
    by (auto split: option.splits)
  then show ?case
  proof
    assume "sel1 = sel"
    with app show ?thesis by auto
  next
    assume "sel1 = sel @ [f]"
    with app have "sel' = sel @ (f # app)" "subseq (f # app) (f # fs)" by simp_all
    then show ?thesis by blast
  qed
qed

lemma motion_step_first:
  "fst (motion_step cv t f (sel, None)) = sel"
  by (auto simp: motion_step_def split: call.splits option.splits)

text \<open>
  C7. For a non-empty frames list and a threshold that is not negative,
  \<open>motion_based_sampling\<close> returns a selection, and the selection is a subsequence of
  the frames after the first: the frame at position 0 is never selected, the order is
  kept and every reference comes from the input. When the references are distinct, the
  first reference is not in the selection.
\<close>

theorem motion_first_frame_excluded:
  assumes "frames \<noteq> []" and "\<not> float_lt threshold (Fin 0)"
  shows "\<exists>out. motion_based_sampling cv frames threshold = Inr out \<and>
           subseq out (tl frames) \<and> subseq out frames \<and> set out \<subseteq> set frames \<and>
           (distinct frames \<longrightarrow> frames ! 0 \<notin> set out)"
proof -
  from assms(1) obtain f fs where frames: "frames = f # fs" by (cases frames) auto
  obtain sel1 prev1 where step: "motion_step cv threshold f ([], None) = (sel1, prev1)"
    by (cases "motion_step cv threshold f ([], None)")
  then have sel1: "sel1 = []" using motion_step_first [of cv threshold f "[]"] by simp
  obtain out prev where loop: "motion_loop cv threshold fs ([], prev1) = (out, prev)"
    by (cases "motion_loop cv threshold fs ([], prev1)")
  from motion_loop_appends [OF loop] have sub: "subseq out fs" by simp
  have run: "motion_based_sampling cv frames threshold = Inr out"
    using assms(2) frames step sel1 loop by (simp add: motion_based_sampling_def)
  have sub': "subseq out frames" using subseq_drop_many [OF sub, of "[f]"] frames by simp
  have set: "set out \<subseteq> set fs" using sub by (auto dest: list_emb_set)
  show ?thesis
    using run sub sub' set frames by auto
qed

theorem motion_first_frame_excluded_witness:
  "[''f0.jpg'', ''f3.jpg''] \<noteq> [] \<and> \<not> float_lt (Fin 0) (Fin 0) \<and>
   distinct [''f0.jpg'', ''f3.jpg''] \<and>
   motion_based_sampling example_motion [''f0.jpg'', ''f3.jpg''] (Fin 0) = Inr [''f3.jpg'']"
  using motion_first_frame_excluded [of "[''f0.jpg'', ''f3.jpg'']" "Fin 0" example_motion]
  by (simp add: motion_based_sampling_def motion_step_def example_motion_simps float_gt_def)

text \<open>Once a raster is stored, every later state stores a raster of the same shape.\<close>

lemma motion_loop_shape_Some:
  "motion_loop cv t fs (sel, Some pf) = (sel', prev') \<Longrightarrow>
     \<exists>pf' app. prev' = Some pf' \<and> shape cv pf' = shape cv pf \<and> sel' = sel @ app \<and>
       (\<forall>f\<in>set app. \<exists>frame. imread_gray cv f = Returns (Some frame) \<and>
          shape cv frame = shape cv pf)"
proof (induction fs arbitrary: sel pf)
  case Nil
  then show ?case by auto
next
  case (Cons f fs)
  obtain sel1 prev1 where step: "motion_step cv t f (sel, Some pf) = (sel1, prev1)"
    by (cases "motion_step cv t f (sel, Some pf)")
  from motion_step_cases [OF step] obtain pf1 where
    pf1: "prev1 = Some pf1" "shape cv pf1 = shape cv pf" and
    sel1: "sel1 = sel \<or>
           (sel1 = sel @ [f] \<and> imread_gray cv f = Returns (Some pf1))"
    by auto
  from Cons.prems step pf1 have "motion_loop cv t fs (sel1, Some pf1) = (sel', prev')"
    by simp
  from Cons.IH [OF this] obtain pf' app where
    rest: "prev' = Some pf'" "shape cv pf' = shape cv pf1" "sel' = sel1 @ app"
      "\<forall>f\<in>set app. \<exists>frame. imread_gray cv f = Returns (Some frame) \<and>
          shape cv frame = shape cv pf1"
    by blast
  from sel1 show ?case
  proof
    assume "sel1 = sel"
    with rest pf1 show ?thesis by auto
  next
    assume a: "sel1 = sel @ [f] \<and> imread_gray cv f = Returns (Some pf1)"
    then have "sel' = sel @ (f # app)" using rest by simp
    moreover have "\<forall>g\<in>set (f # app). \<exists>frame. imread_gray cv g = Returns (Some frame) \<and>
          shape cv frame = shape cv pf"
      using a rest(4) pf1 by auto
    ultimately show ?thesis using rest(1,2) pf1 by metis
  qed
qed

lemma motion_loop_shape_None:
  "motion_loop cv t fs (sel, None) = (sel', prev') \<Longrightarrow>
     (case first_decoded cv fs of
        None \<Rightarrow> sel' = sel \<and> prev' = None
      | Some frame0 \<Rightarrow>
          (\<exists>pf' app. prev' = Some pf' \<and> shape cv pf' = shape cv frame0 \<and> sel' = sel @ app \<and>
             (\<forall>f\<in>set app. \<exists>frame. imread_gray cv f = Returns (Some frame) \<and>
                shape cv frame = shape cv frame0)))"
proof (induction fs)
  case Nil
  then show ?case by simp
next
  case (Cons f fs)
  show ?case
  proof (cases "\<exists>frame. imread_gray cv f = Returns (Some frame)")
    case True
    then obtain frame where frame: "imread_gray cv f = Returns (Some frame)" by blast
    then have "motion_step cv t f (sel, None) = (sel, Some frame)"
      by (simp add: motion_step_def)
    with Cons.prems have "motion_loop cv t fs (sel, Some frame) = (sel', prev')" by simp
    from motion_loop_shape_Some [OF this] show ?thesis using frame by simp
  next
    case False
    then have "motion_step cv t f (sel, None) = (sel, None)"
      by (auto simp: motion_step_def split: call.splits option.splits)
    moreover have "first_decoded cv (f # fs) = first_decoded cv fs"
      using False by (auto split: call.splits option.splits)
    ultimately show ?thesis using Cons by simp
  qed
qed

lemma first_decoded_take:
  "first_decoded cv (take n fs) = Some frame \<Longrightarrow> first_decoded cv fs = Some frame"
proof (induction fs arbitrary: n)
  case Nil
  then show ?case by simp
next
  case (Cons f fs)
  then show ?case by (cases n) (auto split: call.splits option.splits)
qed

lemma motion_step_mismatch:
  "imread_gray cv f = Returns (Some frame) \<Longrightarrow> shape cv frame \<noteq> shape cv pf \<Longrightarrow>
     motion_step cv t f (sel, Some pf) = (sel, Some pf)"
  by (auto simp: motion_step_def)

text \<open>
  C9. Let \<open>frame0\<close> be the raster of the first frame that decodes. After any number of
  iterations the stored raster, once there is one, has the shape of \<open>frame0\<close>; a decoded
  frame of another shape than the stored raster leaves the selection and the stored
  raster as they were; and every selected frame decodes to a raster of the shape of
  \<open>frame0\<close>.
\<close>

theorem motion_dimensions_fixed:
  assumes "first_decoded cv frames = Some frame0"
  shows "(\<forall>n. case snd (motion_loop cv t (take n frames) ([], None)) of
                 None \<Rightarrow> first_decoded cv (take n frames) = None
               | Some pf \<Rightarrow> shape cv pf = shape cv frame0) \<and>
         (\<forall>f sel pf frame.
            imread_gray cv f = Returns (Some frame) \<longrightarrow> shape cv frame \<noteq> shape cv pf \<longrightarrow>
            motion_step cv t f (sel, Some pf) = (sel, Some pf)) \<and>
         (\<forall>out. motion_based_sampling cv frames t = Inr out \<longrightarrow>
            (\<forall>f\<in>set out. \<exists>frame. imread_gray cv f = Returns (Some frame) \<and>
               shape cv frame = shape cv frame0))"
proof (intro conjI allI impI)
  fix n
  obtain sel' prev' where loop: "motion_loop cv t (take n frames) ([], None) = (sel', prev')"
    by (cases "motion_loop cv t (take n frames) ([], None)")
  show "case snd (motion_loop cv t (take n frames) ([], None)) of
          None \<Rightarrow> first_decoded cv (take n frames) = None
        | Some pf \<Rightarrow> shape cv pf = shape cv frame0"
  proof (cases "first_decoded cv (take n frames)")
    case None
    with motion_loop_shape_None [OF loop] loop show ?thesis by simp
  next
    case (Some frame)
    then have "frame = frame0" using first_decoded_take [OF Some] assms by simp
    with motion_loop_shape_None [OF loop] loop Some show ?thesis by auto
  qed
next
  fix f sel pf frame
  assume "imread_gray cv f = Returns (Some frame)" "shape cv frame \<noteq> shape cv pf"
  then show "motion_step cv t f (sel, Some pf) = (sel, Some pf)"
    by (rule motion_step_mismatch)
next
  fix out
  assume out: "motion_based_sampling cv frames t = Inr out"
  obtain sel' prev' where loop: "motion_loop cv t frames ([], None) = (sel', prev')"
    by (cases "motion_loop cv t frames ([], None)")
  with out have "sel' = out"
    by (auto simp: motion_based_sampling_def split: if_splits)
  with motion_loop_shape_None [OF loop] assms
  show "\<forall>f\<in>set out. \<exists>frame. imread_gray cv f = Returns (Some frame) \<and>
               shape cv frame = shape cv frame0"
    by auto
qed

theorem motion_dimensions_fixed_witness:
  "first_decoded example_motion [''bad.jpg'', ''f0.jpg'', ''f1.jpg'', ''f2.jpg'', ''f3.jpg''] =
     Some (2, 2, 0) \<and>
   imread_gray example_motion ''f1.jpg'' = Returns (Some (3, 3, 5)) \<and>
   shape example_motion (3, 3, 5) \<noteq> shape example_motion (2, 2, 0) \<and>
   motion_step example_motion (Fin 0) ''f1.jpg'' ([], Some (2, 2, 0)) = ([], Some (2, 2, 0)) \<and>
   snd (motion_loop example_motion (Fin 0)
          (take 4 [''bad.jpg'', ''f0.jpg'', ''f1.jpg'', ''f2.jpg'', ''f3.jpg'']) ([], None)) =
     Some (2, 2, 0) \<and>
   motion_based_sampling example_motion
     [''bad.jpg'', ''f0.jpg'', ''f1.jpg'', ''f2.jpg'', ''f3.jpg''] (Fin 0) = Inr [''f3.jpg''] \<and>
   imread_gray example_motion ''f3.jpg'' = Returns (Some (2, 2, 4)) \<and>
   shape example_motion (2, 2, 4) = shape example_motion (2, 2, 0)"
  using motion_dimensions_fixed [of example_motion
      "[''bad.jpg'', ''f0.jpg'', ''f1.jpg'', ''f2.jpg'', ''f3.jpg'']" "(2, 2, 0)" "Fin 0"]
  by (simp add: motion_based_sampling_def motion_step_def example_motion_simps float_gt_def)

text \<open>
  C2, as the code has it. A frame that decodes to a raster of another shape than the
  stored one is skipped without an exception: the selection and the stored raster stay
  as they were, and the scan goes on with the next frame. The stored raster becomes the
  current one, whatever the selection outcome, when there was none before or when the
  shapes agree and the flow calls return.
\<close>

theorem motion_mismatch_skipped:
  assumes "imread_gray cv f = Returns (Some frame)"
  shows "(shape cv frame \<noteq> shape cv pf \<longrightarrow>
            motion_step cv t f (sel, Some pf) = (sel, Some pf) \<and>
            motion_loop cv t (f # rest) (sel, Some pf) = motion_loop cv t rest (sel, Some pf)) \<and>
         motion_step cv t f (sel, None) = (sel, Some frame) \<and>
         (shape cv frame = shape cv pf \<longrightarrow>
            (\<exists>flow m. calcOpticalFlowFarneback cv pf frame = Returns flow \<and>
               mean_norm cv flow = Returns m) \<longrightarrow>
            snd (motion_step cv t f (sel, Some pf)) = Some frame)"
  using assms by (auto simp: motion_step_def)

theorem motion_mismatch_skipped_witness:
  "imread_gray example_motion ''f1.jpg'' = Returns (Some (3, 3, 5)) \<and>
   shape example_motion (3, 3, 5) \<noteq> shape example_motion (2, 2, 0) \<and>
   motion_step example_motion (Fin 0) ''f1.jpg'' ([], Some (2, 2, 0)) = ([], Some (2, 2, 0)) \<and>
   motion_step example_motion (Fin 0) ''f1.jpg'' ([], None) = ([], Some (3, 3, 5)) \<and>
   shape example_motion (3, 3, 5) = shape example_motion (3, 3, 9) \<and>
   calcOpticalFlowFarneback example_motion (3, 3, 9) (3, 3, 5) = Returns 4 \<and>
   mean_norm example_motion 4 = Returns (Fin 4) \<and>
   snd (motion_step example_motion (Fin 10) ''f1.jpg'' ([], Some (3, 3, 9))) = Some (3, 3, 5)"
  using motion_mismatch_skipped [of example_motion "''f1.jpg''" "(3, 3, 5)" "(2, 2, 0)" "Fin 0" "[]" "[]"]
    motion_mismatch_skipped [of example_motion "''f1.jpg''" "(3, 3, 5)" "(3, 3, 9)" "Fin 10" "[]" "[]"]
  by (simp add: motion_step_def example_motion_simps float_gt_def)

text \<open>
  The claim as the spec states it fails: after \<open>f0.jpg\<close> (2 by 2), \<open>f1.jpg\<close> (3 by 3)
  decodes, but the stored raster stays that of \<open>f0.jpg\<close>; so \<open>f2.jpg\<close> (3 by 3, moved
  from \<open>f1.jpg\<close>) is skipped as well, where a scan starting at \<open>f1.jpg\<close> selects it.
\<close>

theorem mismatch_state_counterexample:
  "imread_gray example_motion ''f1.jpg'' = Returns (Some (3, 3, 5)) \<and>
   snd (motion_step example_motion (Fin 0) ''f1.jpg'' ([], Some (2, 2, 0))) \<noteq> Some (3, 3, 5) \<and>
   motion_based_sampling example_motion [''f0.jpg'', ''f1.jpg'', ''f2.jpg''] (Fin 0) = Inr [] \<and>
   motion_based_sampling example_motion [''f1.jpg'', ''f2.jpg''] (Fin 0) = Inr [''f2.jpg'']"
  by (simp add: motion_based_sampling_def motion_step_def example_motion_simps float_gt_def)

section \<open>Exceptions of the collaborators\<close>

text \<open>
  C5. The scene scan has no \<open>try\<close>: when \<open>imread\<close> raises on one frame, the exception
  leaves \<open>scene_change_detection\<close> and the frames after it are not processed, where the
  scan without that frame returns a selection. \<open>motion_based_sampling\<close> skips such a
  frame and goes on.
\<close>

theorem scene_fault_propagates:
  "imread example_scene ''huge.jpg'' = Raises \<and>
   scene_change_detection example_scene [''f0.jpg'', ''huge.jpg'', ''f2.jpg''] (Fin 30) =
     Inl Cv2Error \<and>
   scene_change_detection example_scene [''f0.jpg'', ''f2.jpg''] (Fin 30) =
     Inr [''f0.jpg'', ''f2.jpg''] \<and>
   imread_gray example_motion ''huge.jpg'' = Raises \<and>
   motion_based_sampling example_motion [''f0.jpg'', ''huge.jpg'', ''f3.jpg''] (Fin 0) =
     Inr [''f3.jpg'']"
  by (simp add: scene_change_detection_def example_scene_simps motion_based_sampling_def
      motion_step_def example_motion_simps float_gt_def)

end
